theory Spec2Isabelle
  imports Main "HOL-Library.Log_Nat"
begin

section \<open>Unicode text\<close>

text \<open>
  A Python \<open>str\<close> is a sequence of Unicode code points, and \<open>len\<close>, \<open>strip\<close> and the
  regular expressions of \<open>editor.py\<close> all work on code points. A code point is a natural
  number here and a text is a list of them; \<open>ustr\<close> turns an ASCII literal into such a text.
\<close>

type_synonym codepoint = nat
type_synonym ustring = "codepoint list"

definition ustr :: "string \<Rightarrow> ustring" where
  "ustr s = map of_char s"

text \<open>
  \<open>str.isspace\<close>, which decides what \<open>str.strip()\<close> removes: the code points U+0009..U+000D,
  U+001C..U+0020, U+0085, U+00A0, U+1680, U+2000..U+200A, U+2028, U+2029, U+202F, U+205F
  and U+3000.
\<close>

definition isspace :: "codepoint \<Rightarrow> bool" where
  "isspace c \<longleftrightarrow>
     (0x9 \<le> c \<and> c \<le> 0xD) \<or> (0x1C \<le> c \<and> c \<le> 0x20) \<or> c = 0x85 \<or> c = 0xA0 \<or>
     c = 0x1680 \<or> (0x2000 \<le> c \<and> c \<le> 0x200A) \<or> c = 0x2028 \<or> c = 0x2029 \<or>
     c = 0x202F \<or> c = 0x205F \<or> c = 0x3000"

definition lstrip :: "ustring \<Rightarrow> ustring" where
  "lstrip s = dropWhile isspace s"

definition rstrip :: "ustring \<Rightarrow> ustring" where
  "rstrip s = rev (dropWhile isspace (rev s))"

definition strip :: "ustring \<Rightarrow> ustring" where
  "strip s = rstrip (lstrip s)"


section \<open>The script classifier\<close>

text \<open>
  The patterns of \<open>detect_script\<close> name values of the Unicode Script property
  (\<open>\p{Arabic}\<close>, \<open>\p{Han}\<close>, ...). Every code point has exactly one Script value; the
  values the patterns do not name are collected in \<open>Other\<close>. The table itself belongs to
  the \<open>regex\<close> library, so the classifier takes it as the parameter \<open>sc\<close>.
\<close>

datatype script =
  Arabic | Han | Hiragana | Katakana | Hangul | Latin | Cyrillic | Common | Inherited | Other

text \<open>
  \<open>regex.fullmatch(r"[...]+", text)\<close>: the whole text is one or more characters of the class.
  \<open>regex.search(r"[...]", text)\<close>: some character of the text is in the class.
\<close>

fun fullmatch_plus :: "(codepoint \<Rightarrow> bool) \<Rightarrow> ustring \<Rightarrow> bool" where
  "fullmatch_plus cls [] = False"
| "fullmatch_plus cls [c] = cls c"
| "fullmatch_plus cls (c # d # cs) = (cls c \<and> fullmatch_plus cls (d # cs))"

fun search :: "(codepoint \<Rightarrow> bool) \<Rightarrow> ustring \<Rightarrow> bool" where
  "search cls [] = False"
| "search cls (c # cs) = (cls c \<or> search cls cs)"

definition detect_script :: "(codepoint \<Rightarrow> script) \<Rightarrow> ustring \<Rightarrow> string option" where
  "detect_script sc text0 =
     (let text = strip text0 in
      if text = [] then None
      else if fullmatch_plus (\<lambda>c. sc c \<in> {Arabic, Common, Inherited}) text \<and>
              search (\<lambda>c. sc c = Arabic) text
      then Some ''arabic''
      else if fullmatch_plus
                (\<lambda>c. sc c \<in> {Han, Hiragana, Katakana, Hangul, Common, Inherited}) text \<and>
              search (\<lambda>c. sc c \<in> {Han, Hiragana, Katakana, Hangul}) text
      then Some ''asian''
      else if fullmatch_plus (\<lambda>c. sc c \<in> {Latin, Cyrillic, Common, Inherited}) text \<and>
              search (\<lambda>c. sc c \<in> {Latin, Cyrillic}) text
      then Some ''latin-cyrillic''
      else None)"

text \<open>
  The three conditions of \<open>detect_script\<close>, each on the stripped text, under the name of
  the category it guards.
\<close>

definition script_condition :: "(codepoint \<Rightarrow> script) \<Rightarrow> string \<Rightarrow> ustring \<Rightarrow> bool" where
  "script_condition sc k text =
     (if k = ''arabic'' then
        fullmatch_plus (\<lambda>c. sc c \<in> {Arabic, Common, Inherited}) text \<and>
        search (\<lambda>c. sc c = Arabic) text
      else if k = ''asian'' then
        fullmatch_plus (\<lambda>c. sc c \<in> {Han, Hiragana, Katakana, Hangul, Common, Inherited}) text \<and>
        search (\<lambda>c. sc c \<in> {Han, Hiragana, Katakana, Hangul}) text
      else if k = ''latin-cyrillic'' then
        fullmatch_plus (\<lambda>c. sc c \<in> {Latin, Cyrillic, Common, Inherited}) text \<and>
        search (\<lambda>c. sc c \<in> {Latin, Cyrillic}) text
      else False)"

text \<open>
  The same classifier with the order of the tests as an argument: the first category of
  \<open>order\<close> whose condition holds. It serves to state that the order does not matter.
\<close>

fun first_match :: "(codepoint \<Rightarrow> script) \<Rightarrow> string list \<Rightarrow> ustring \<Rightarrow> string option" where
  "first_match sc [] text = None"
| "first_match sc (k # ks) text =
     (if script_condition sc k text then Some k else first_match sc ks text)"

definition detect_script_in_order ::
    "(codepoint \<Rightarrow> script) \<Rightarrow> string list \<Rightarrow> ustring \<Rightarrow> string option" where
  "detect_script_in_order sc order text0 =
     (let text = strip text0 in if text = [] then None else first_match sc order text)"

text \<open>The category a script belongs to, if it is one of the scripts the classifier covers.\<close>

fun script_category :: "script \<Rightarrow> string option" where
  "script_category Arabic = Some ''arabic''"
| "script_category Han = Some ''asian''"
| "script_category Hiragana = Some ''asian''"
| "script_category Katakana = Some ''asian''"
| "script_category Hangul = Some ''asian''"
| "script_category Latin = Some ''latin-cyrillic''"
| "script_category Cyrillic = Some ''latin-cyrillic''"
| "script_category Common = None"
| "script_category Inherited = None"
| "script_category Other = None"

text \<open>
  An excerpt of the Unicode Script table, for evaluating the classifier on examples: ASCII
  letters, the Cyrillic letters U+0410..U+044F, the Arabic letters U+0621..U+063A and
  U+0641..U+064A, Hiragana
  U+3041..U+3096, Katakana U+30A1..U+30FA, the ideographs U+4E00..U+9FA5, the Hangul
  syllables U+AC00..U+D7A3, the combining marks U+0300..U+036F (Inherited) and the rest of
  ASCII (Common). A code point outside these ranges is given \<open>Other\<close>, which is not a
  statement about Unicode; the examples stay inside the ranges.
\<close>

definition script_sample :: "codepoint \<Rightarrow> script" where
  "script_sample c =
     (if (0x41 \<le> c \<and> c \<le> 0x5A) \<or> (0x61 \<le> c \<and> c \<le> 0x7A) then Latin
      else if c \<le> 0x7F then Common
      else if 0x300 \<le> c \<and> c \<le> 0x36F then Inherited
      else if 0x410 \<le> c \<and> c \<le> 0x44F then Cyrillic
      else if (0x621 \<le> c \<and> c \<le> 0x63A) \<or> (0x641 \<le> c \<and> c \<le> 0x64A) then Arabic
      else if 0x3041 \<le> c \<and> c \<le> 0x3096 then Hiragana
      else if 0x30A1 \<le> c \<and> c \<le> 0x30FA then Katakana
      else if 0x4E00 \<le> c \<and> c \<le> 0x9FA5 then Han
      else if 0xAC00 \<le> c \<and> c \<le> 0xD7A3 then Hangul
      else Other)"


section \<open>Properties of the script classifier\<close>

lemma fullmatch_plus_iff: "fullmatch_plus cls t \<longleftrightarrow> t \<noteq> [] \<and> (\<forall>c\<in>set t. cls c)"
  by (induction cls t rule: fullmatch_plus.induct) auto

lemma search_iff: "search cls t \<longleftrightarrow> (\<exists>c\<in>set t. cls c)"
  by (induction t) auto

lemma set_dropWhile_keeps: "c \<in> set xs \<Longrightarrow> \<not> P c \<Longrightarrow> c \<in> set (dropWhile P xs)"
  by (induction xs) auto

lemma set_strip_subset: "set (strip s) \<subseteq> set s"
proof -
  have "set (strip s) \<subseteq> set (lstrip s)"
    unfolding strip_def rstrip_def using set_dropWhileD by fastforce
  also have "\<dots> \<subseteq> set s"
    unfolding lstrip_def using set_dropWhileD by fastforce
  finally show ?thesis .
qed

lemma set_strip_keeps: "c \<in> set s \<Longrightarrow> \<not> isspace c \<Longrightarrow> c \<in> set (strip s)"
  unfolding strip_def rstrip_def lstrip_def by (simp add: set_dropWhile_keeps)

lemma strip_Nil [simp]: "strip [] = []"
  by (simp add: strip_def rstrip_def lstrip_def)


lemma script_condition_iff:
  "script_condition sc ''arabic'' t \<longleftrightarrow>
     t \<noteq> [] \<and> (\<forall>c\<in>set t. sc c \<in> {Arabic, Common, Inherited}) \<and> (\<exists>c\<in>set t. sc c = Arabic)"
  "script_condition sc ''asian'' t \<longleftrightarrow>
     t \<noteq> [] \<and> (\<forall>c\<in>set t. sc c \<in> {Han, Hiragana, Katakana, Hangul, Common, Inherited}) \<and>
     (\<exists>c\<in>set t. sc c \<in> {Han, Hiragana, Katakana, Hangul})"
  "script_condition sc ''latin-cyrillic'' t \<longleftrightarrow>
     t \<noteq> [] \<and> (\<forall>c\<in>set t. sc c \<in> {Latin, Cyrillic, Common, Inherited}) \<and>
     (\<exists>c\<in>set t. sc c \<in> {Latin, Cyrillic})"
  by (simp_all add: script_condition_def fullmatch_plus_iff search_iff)

lemma detect_script_conditions:
  "detect_script sc text =
     (if script_condition sc ''arabic'' (strip text) then Some ''arabic''
      else if script_condition sc ''asian'' (strip text) then Some ''asian''
      else if script_condition sc ''latin-cyrillic'' (strip text) then Some ''latin-cyrillic''
      else None)"
  by (simp add: detect_script_def script_condition_def Let_def)

lemma script_category_cases:
  "script_category s = Some ''arabic'' \<longleftrightarrow> s = Arabic"
  "script_category s = Some ''asian'' \<longleftrightarrow> s \<in> {Han, Hiragana, Katakana, Hangul}"
  "script_category s = Some ''latin-cyrillic'' \<longleftrightarrow> s \<in> {Latin, Cyrillic}"
  "script_category s = None \<longleftrightarrow> s \<in> {Common, Inherited, Other}"
  by (cases s; simp)+

lemma script_condition_names:
  "script_condition sc k t \<Longrightarrow> k = ''arabic'' \<or> k = ''asian'' \<or> k = ''latin-cyrillic''"
  by (auto simp: script_condition_def split: if_splits)

lemma script_condition_category:
  assumes "script_condition sc k t"
  shows "\<exists>c\<in>set t. script_category (sc c) = Some k"
    and "\<forall>c\<in>set t. script_category (sc c) \<in> {None, Some k}"
  using assms script_condition_names [OF assms]
  by (auto simp: script_condition_iff script_category_cases)

lemma script_condition_unique:
  assumes "script_condition sc k t" and "script_condition sc k' t"
  shows "k = k'"
proof -
  obtain c where c: "c \<in> set t" "script_category (sc c) = Some k"
    using script_condition_category(1) [OF assms(1)] by blast
  have "script_category (sc c) \<in> {None, Some k'}"
    using script_condition_category(2) [OF assms(2)] c(1) by blast
  with c(2) show ?thesis by simp
qed

lemma first_match_unique:
  assumes "script_condition sc k t" and "k \<in> set order"
  shows "first_match sc order t = Some k"
  using assms(2)
proof (induction order)
  case Nil
  then show ?case by simp
next
  case (Cons j js)
  show ?case
  proof (cases "script_condition sc j t")
    case True
    then have "j = k" using assms(1) script_condition_unique by blast
    with True show ?thesis by simp
  next
    case False
    with Cons assms(1) have "k \<in> set js" by auto
    with Cons.IH False show ?thesis by simp
  qed
qed

lemma first_match_none:
  assumes "\<forall>k\<in>set order. \<not> script_condition sc k t"
  shows "first_match sc order t = None"
  using assms by (induction order) auto

lemma detect_script_None_iff:
  "detect_script sc text = None \<longleftrightarrow>
     (\<forall>k\<in>{''arabic'', ''asian'', ''latin-cyrillic''}. \<not> script_condition sc k (strip text))"
  by (simp add: detect_script_conditions)


subsection \<open>C1: the tests run in a fixed order and the first match wins\<close>

text \<open>
  C1. For every text, \<open>detect_script\<close> strips it and tests Arabic, then the CJK, Kana and
  Hangul scripts ("asian"), then Latin and Cyrillic. A category matches when the stripped
  text is not empty, every character of it is of the category's scripts or Common or
  Inherited, and some character is of the category's scripts proper. The first category
  that matches is returned; when none matches the result is \<open>None\<close>.
\<close>

theorem detect_script_priority:
  "detect_script sc text =
     (let t = strip text in
      if t \<noteq> [] \<and> (\<forall>c\<in>set t. sc c \<in> {Arabic, Common, Inherited}) \<and>
         (\<exists>c\<in>set t. sc c = Arabic)
      then Some ''arabic''
      else if t \<noteq> [] \<and>
         (\<forall>c\<in>set t. sc c \<in> {Han, Hiragana, Katakana, Hangul, Common, Inherited}) \<and>
         (\<exists>c\<in>set t. sc c \<in> {Han, Hiragana, Katakana, Hangul})
      then Some ''asian''
      else if t \<noteq> [] \<and> (\<forall>c\<in>set t. sc c \<in> {Latin, Cyrillic, Common, Inherited}) \<and>
         (\<exists>c\<in>set t. sc c \<in> {Latin, Cyrillic})
      then Some ''latin-cyrillic''
      else None)"
  unfolding detect_script_conditions script_condition_iff Let_def ..

theorem detect_script_priority_witness:
  "detect_script script_sample (ustr '' Hello, world! '') = Some ''latin-cyrillic'' \<and>
   detect_script script_sample [0x4F60, 0x597D, 0x21] = Some ''asian'' \<and>
   detect_script script_sample [0x645, 0x631, 0x62D, 0x628, 0x627, 0x21] = Some ''arabic'' \<and>
   detect_script script_sample (ustr ''Hello '' @ [0x4F60, 0x597D]) = None"
proof (intro conjI)
  show "detect_script script_sample (ustr '' Hello, world! '') = Some ''latin-cyrillic''"
    unfolding detect_script_priority [of script_sample "ustr '' Hello, world! ''"]
    by (simp add: ustr_def strip_def lstrip_def rstrip_def isspace_def script_sample_def)
  show "detect_script script_sample [0x4F60, 0x597D, 0x21] = Some ''asian''"
    by (simp add: detect_script_def strip_def lstrip_def rstrip_def isspace_def
        script_sample_def)
  show "detect_script script_sample [0x645, 0x631, 0x62D, 0x628, 0x627, 0x21] = Some ''arabic''"
    by (simp add: detect_script_def strip_def lstrip_def rstrip_def isspace_def
        script_sample_def)
  show "detect_script script_sample (ustr ''Hello '' @ [0x4F60, 0x597D]) = None"
    by (simp add: detect_script_def ustr_def strip_def lstrip_def rstrip_def isspace_def
        script_sample_def)
qed



subsection \<open>C5: the texts that are left undetermined\<close>

text \<open>
  C5. \<open>detect_script\<close> returns \<open>None\<close> for the empty text, for a text that strips to the
  empty text, for a text none of whose characters is of a script of the three categories
  (punctuation only), and for a text that holds characters of two different categories
  (the two characters are not white space, so that \<open>strip\<close> keeps them). "Script" is read
  as the claim uses it in "the three target scripts": Latin with Cyrillic, and Han with
  Kana and Hangul, are one category each, and mixing inside a category is not at issue.
\<close>

theorem detect_script_undetermined:
  "detect_script sc [] = None \<and>
   (strip text = [] \<longrightarrow> detect_script sc text = None) \<and>
   ((\<forall>c\<in>set text. script_category (sc c) = None) \<longrightarrow> detect_script sc text = None) \<and>
   (c1 \<in> set text \<and> c2 \<in> set text \<and> \<not> isspace c1 \<and> \<not> isspace c2 \<and>
     script_category (sc c1) = Some k1 \<and> script_category (sc c2) = Some k2 \<and> k1 \<noteq> k2
   \<longrightarrow> detect_script sc text = None)"
proof (intro conjI)
  show "detect_script sc [] = None"
    by (simp add: detect_script_def)
  show "strip text = [] \<longrightarrow> detect_script sc text = None"
    by (simp add: detect_script_def)
  show "(\<forall>c\<in>set text. script_category (sc c) = None) \<longrightarrow> detect_script sc text = None"
  proof
    assume none: "\<forall>c\<in>set text. script_category (sc c) = None"
    have "\<not> script_condition sc k (strip text)" for k
    proof
      assume "script_condition sc k (strip text)"
      then obtain c where "c \<in> set (strip text)" "script_category (sc c) = Some k"
        using script_condition_category(1) by blast
      with none set_strip_subset show False by fastforce
    qed
    then show "detect_script sc text = None"
      by (simp add: detect_script_conditions)
  qed
  show "c1 \<in> set text \<and> c2 \<in> set text \<and> \<not> isspace c1 \<and> \<not> isspace c2 \<and>
     script_category (sc c1) = Some k1 \<and> script_category (sc c2) = Some k2 \<and> k1 \<noteq> k2
   \<longrightarrow> detect_script sc text = None"
  proof
    assume a: "c1 \<in> set text \<and> c2 \<in> set text \<and> \<not> isspace c1 \<and> \<not> isspace c2 \<and>
      script_category (sc c1) = Some k1 \<and> script_category (sc c2) = Some k2 \<and> k1 \<noteq> k2"
    then have in1: "c1 \<in> set (strip text)" and in2: "c2 \<in> set (strip text)"
      by (simp_all add: set_strip_keeps)
    have "\<not> script_condition sc k (strip text)" for k
    proof
      assume "script_condition sc k (strip text)"
      then have "\<forall>c\<in>set (strip text). script_category (sc c) \<in> {None, Some k}"
        by (rule script_condition_category(2))
      with in1 in2 have "script_category (sc c1) \<in> {None, Some k}"
        and "script_category (sc c2) \<in> {None, Some k}" by blast+
      with a show False by auto
    qed
    then show "detect_script sc text = None"
      by (simp add: detect_script_conditions)
  qed
qed

theorem detect_script_undetermined_witness:
  "detect_script script_sample (ustr ''   '') = None \<and>
   detect_script script_sample (ustr ''?!... 42'') = None \<and>
   detect_script script_sample (ustr ''Hello '' @ [0x4F60, 0x597D]) = None"
proof (intro conjI)
  show "detect_script script_sample (ustr ''   '') = None"
    using detect_script_undetermined [of script_sample "ustr ''   ''"]
    by (simp add: ustr_def strip_def lstrip_def rstrip_def isspace_def)
  show "detect_script script_sample (ustr ''?!... 42'') = None"
    using detect_script_undetermined [of script_sample "ustr ''?!... 42''"]
    by (simp add: ustr_def script_sample_def)
  show "detect_script script_sample (ustr ''Hello '' @ [0x4F60, 0x597D]) = None"
    using detect_script_undetermined [of script_sample "ustr ''Hello '' @ [0x4F60, 0x597D]"
        "0x48" "0x4F60" "''latin-cyrillic''" "''asian''"]
    by (simp add: ustr_def script_sample_def isspace_def)
qed


subsection \<open>C10: the three conditions exclude one another\<close>

text \<open>
  C10. On every text at most one of the three conditions of \<open>detect_script\<close> holds: two
  conditions that hold are the same one. Hence testing the three categories in any order
  gives the result of \<open>detect_script\<close>.
\<close>

theorem detect_script_order_independent:
  "(script_condition sc k t \<and> script_condition sc k' t \<longrightarrow> k = k') \<and>
   (set order = {''arabic'', ''asian'', ''latin-cyrillic''} \<longrightarrow>
     detect_script_in_order sc order text = detect_script sc text)"
proof (intro conjI)
  show "script_condition sc k t \<and> script_condition sc k' t \<longrightarrow> k = k'"
    using script_condition_unique by blast
  show "set order = {''arabic'', ''asian'', ''latin-cyrillic''} \<longrightarrow>
     detect_script_in_order sc order text = detect_script sc text"
  proof
    assume ord: "set order = {''arabic'', ''asian'', ''latin-cyrillic''}"
    show "detect_script_in_order sc order text = detect_script sc text"
    proof (cases "\<exists>k. script_condition sc k (strip text)")
      case True
      then obtain k where k: "script_condition sc k (strip text)" ..
      have "k \<in> {''arabic'', ''asian'', ''latin-cyrillic''}"
        using script_condition_names [OF k] by simp
      then have "k \<in> set order"
        unfolding ord .
      with k have fm: "first_match sc order (strip text) = Some k"
        by (rule first_match_unique)
      have ne: "strip text \<noteq> []"
        using k script_condition_category(1) by fastforce
      have only: "\<not> script_condition sc j (strip text)" if "j \<noteq> k" for j
        using that k script_condition_unique by blast
      consider "k = ''arabic''" | "k = ''asian''" | "k = ''latin-cyrillic''"
        using script_condition_names [OF k] by blast
      then have "detect_script sc text = Some k"
      proof cases
        case 1
        with k show ?thesis by (simp add: detect_script_conditions)
      next
        case 2
        then have "\<not> script_condition sc ''arabic'' (strip text)"
          by (intro only) simp
        with k 2 show ?thesis by (simp add: detect_script_conditions)
      next
        case 3
        then have "\<not> script_condition sc ''arabic'' (strip text)"
          and "\<not> script_condition sc ''asian'' (strip text)"
          by (intro only; simp)+
        with k 3 show ?thesis by (simp add: detect_script_conditions)
      qed
      with fm ne show ?thesis
        by (simp add: detect_script_in_order_def Let_def)
    next
      case False
      then have "first_match sc order (strip text) = None"
        by (simp add: first_match_none)
      moreover from False have "detect_script sc text = None"
        by (simp add: detect_script_conditions)
      ultimately show ?thesis
        by (simp add: detect_script_in_order_def Let_def)
    qed
  qed
qed

theorem detect_script_order_independent_witness:
  "detect_script_in_order script_sample [''latin-cyrillic'', ''asian'', ''arabic'']
     [0x645, 0x631, 0x62D, 0x628, 0x627, 0x21] = Some ''arabic''"
proof -
  have "detect_script script_sample [0x645, 0x631, 0x62D, 0x628, 0x627, 0x21] = Some ''arabic''"
    by (simp add: detect_script_def strip_def lstrip_def rstrip_def isspace_def
        script_sample_def)
  moreover have "set [''latin-cyrillic'', ''asian'', ''arabic''] =
      {''arabic'', ''asian'', ''latin-cyrillic''}"
    by auto
  ultimately show ?thesis
    using detect_script_order_independent
      [of script_sample _ _ _ "[''latin-cyrillic'', ''asian'', ''arabic'']"
        "[0x645, 0x631, 0x62D, 0x628, 0x627, 0x21]"]
    by simp
qed


section \<open>Timestamps\<close>

text \<open>The exceptions of Python that the modelled functions raise.\<close>

datatype error = ValueError | IndexError | FileNotFoundError | OverflowError | SystemExit

text \<open>
  A Python \<open>float\<close> is a binary64 number; a finite one is modelled by the rational number it
  denotes. \<open>round_py\<close> is Python's \<open>round(x)\<close> on a float with no second argument: the
  nearest integer, a tie going to the even one.
\<close>

definition round_py :: "rat \<Rightarrow> int" where
  "round_py x =
     (let f = \<lfloor>x\<rfloor>; d = x - of_int f in
      if d < 1 / 2 then f else if 1 / 2 < d then f + 1 else if even f then f else f + 1)"

text \<open>
  \<open>binary64 x\<close> is the binary64 number that an arithmetic operation with the exact result
  \<open>x\<close> returns: \<open>x\<close> rounded to 53 significant bits (to the multiples of \<open>2 powi - 1074\<close>
  in the subnormal range), ties to even; \<open>None\<close> stands for an infinity. \<open>ilog2 a\<close> is the
  exponent of the leading bit of a positive \<open>a\<close>.
\<close>

definition ilog2 :: "rat \<Rightarrow> int" where
  "ilog2 a =
     (let (p, q) = quotient_of a;
          d = bitlen p - bitlen q
      in if 2 powi d \<le> a then d else d - 1)"

definition binary64 :: "rat \<Rightarrow> rat option" where
  "binary64 x =
     (if x = 0 then Some 0
      else let a = \<bar>x\<bar>;
               e = max (ilog2 a - 52) (- 1074);
               r = of_int (round_py (a / 2 powi e)) * 2 powi e
           in if 2 powi 1024 \<le> r then None else Some (sgn x * r))"

definition float_mul :: "rat \<Rightarrow> rat \<Rightarrow> rat option" where
  "float_mul a b = binary64 (a * b)"

text \<open>
  \<open>str(n)\<close> of a Python \<open>int\<close>, and the format specifications \<open>:02\<close> and \<open>:03\<close> of an
  f-string: the decimal digits, filled with zeros after the sign up to the width.
\<close>

fun digits :: "nat \<Rightarrow> ustring" where
  "digits n = (if n < 10 then [48 + n] else digits (n div 10) @ [48 + n mod 10])"

declare digits.simps [simp del]

definition str_int :: "int \<Rightarrow> ustring" where
  "str_int n = (if n < 0 then 45 # digits (nat (- n)) else digits (nat n))"

definition zfill :: "nat \<Rightarrow> ustring \<Rightarrow> ustring" where
  "zfill w s = replicate (w - length s) 48 @ s"

definition format_int :: "nat \<Rightarrow> int \<Rightarrow> ustring" where
  "format_int w n =
     (if n < 0 then 45 # zfill (w - 1) (digits (nat (- n))) else zfill w (digits (nat n)))"

definition divmod :: "int \<Rightarrow> int \<Rightarrow> int \<times> int" where
  "divmod a b = (a div b, a mod b)"

text \<open>
  \<open>convert_time_to_srt_format\<close>: \<open>int(round(time * 1000))\<close>, three \<open>divmod\<close>s and the
  f-string. \<open>round\<close> of an infinite product raises \<open>OverflowError\<close>.
\<close>

definition convert_time_to_srt_format :: "rat \<Rightarrow> error + ustring" where
  "convert_time_to_srt_format time =
     (case float_mul time 1000 of
        None \<Rightarrow> Inl OverflowError
      | Some product \<Rightarrow>
          let total_milliseconds = round_py product;
              (seconds, milliseconds) = divmod total_milliseconds 1000;
              (minutes, seconds) = divmod seconds 60;
              (hours, minutes) = divmod minutes 60
          in Inr (format_int 2 hours @ ustr '':'' @ format_int 2 minutes @ ustr '':'' @
                  format_int 2 seconds @ ustr '','' @ format_int 3 milliseconds))"

text \<open>
  The conversion as the specification words it: the same computation with the product
  rounded half away from zero. The binary64 number written \<open>3599.9995\<close> is
  \<open>time_3599_9995\<close>.
\<close>

definition round_half_away_from_zero :: "rat \<Rightarrow> int" where
  "round_half_away_from_zero x = (if 0 \<le> x then \<lfloor>x + 1 / 2\<rfloor> else \<lceil>x - 1 / 2\<rceil>)"

definition spec_convert_time_to_srt_format :: "rat \<Rightarrow> error + ustring" where
  "spec_convert_time_to_srt_format time =
     (case float_mul time 1000 of
        None \<Rightarrow> Inl OverflowError
      | Some product \<Rightarrow>
          let total_milliseconds = round_half_away_from_zero product;
              (seconds, milliseconds) = divmod total_milliseconds 1000;
              (minutes, seconds) = divmod seconds 60;
              (hours, minutes) = divmod minutes 60
          in Inr (format_int 2 hours @ ustr '':'' @ format_int 2 minutes @ ustr '':'' @
                  format_int 2 seconds @ ustr '','' @ format_int 3 milliseconds))"

definition time_3599_9995 :: rat where
  "time_3599_9995 = 1979120655118893 / 549755813888"


subsection \<open>Rounding and formatting\<close>

lemma round_py_nearest:
  "\<bar>of_int (round_py x) - x\<bar> \<le> 1 / 2 \<and> (\<bar>of_int (round_py x) - x\<bar> = 1 / 2 \<longrightarrow> even (round_py x))"
proof -
  define f where "f = \<lfloor>x\<rfloor>"
  define d where "d = x - of_int f"
  define T where "T = round_py x"
  have d: "0 \<le> d" "d < 1"
    unfolding d_def f_def by linarith+
  have x: "x = of_int f + d"
    by (simp add: d_def)
  have r: "T = (if d < 1 / 2 then f else if 1 / 2 < d then f + 1 else if even f then f else f + 1)"
    unfolding T_def round_py_def Let_def f_def d_def ..
  consider "d < 1 / 2" | "1 / 2 < d" | "d = 1 / 2" "even f" | "d = 1 / 2" "odd f"
    by fastforce
  then have "\<bar>of_int T - x\<bar> \<le> 1 / 2 \<and> (\<bar>of_int T - x\<bar> = 1 / 2 \<longrightarrow> even T)"
  proof cases
    case 1
    with d show ?thesis by (simp add: r x)
  next
    case 2
    with d show ?thesis by (simp add: r x)
  next
    case 3
    then show ?thesis by (simp add: r x)
  next
    case 4
    then show ?thesis by (simp add: r x)
  qed
  then show ?thesis
    unfolding T_def .
qed

lemma round_py_nonneg: "0 \<le> x \<Longrightarrow> 0 \<le> round_py x"
  unfolding round_py_def Let_def by (auto simp: add_nonneg_nonneg)

lemma binary64_nonneg: "0 \<le> x \<Longrightarrow> binary64 x = Some r \<Longrightarrow> 0 \<le> r"
  unfolding binary64_def Let_def
  by (auto split: if_splits simp: round_py_nonneg zero_le_mult_iff divide_nonneg_nonneg)

lemma digits_lt10: "n < 10 \<Longrightarrow> digits n = [48 + n]"
  by (simp add: digits.simps)

lemma digits_lt100: "10 \<le> n \<Longrightarrow> n < 100 \<Longrightarrow> digits n = [48 + n div 10, 48 + n mod 10]"
  by (subst digits.simps) (simp add: digits_lt10)

lemma digits_lt1000:
  "100 \<le> n \<Longrightarrow> n < 1000 \<Longrightarrow> digits n = [48 + n div 100, 48 + n div 10 mod 10, 48 + n mod 10]"
  by (subst digits.simps) (simp add: digits_lt100 div_mult2_eq)

lemma zfill2: "n < 100 \<Longrightarrow> zfill 2 (digits n) = [48 + n div 10, 48 + n mod 10]"
  by (cases "n < 10") (simp_all add: zfill_def digits_lt10 digits_lt100)

lemma zfill3:
  "n < 1000 \<Longrightarrow> zfill 3 (digits n) = [48 + n div 100, 48 + n div 10 mod 10, 48 + n mod 10]"
proof -
  assume n: "n < 1000"
  consider "n < 10" | "10 \<le> n" "n < 100" | "100 \<le> n" by linarith
  then show ?thesis
  proof cases
    case 1 then show ?thesis by (simp add: zfill_def digits_lt10 numeral_2_eq_2)
  next
    case 2 then show ?thesis by (simp add: zfill_def digits_lt100 numeral_3_eq_3)
  next
    case 3 with n show ?thesis by (simp add: zfill_def digits_lt1000)
  qed
qed

lemma convert_time_fields:
  assumes "float_mul time 1000 = Some p"
  shows "convert_time_to_srt_format time =
     Inr (format_int 2 (round_py p div 3600000) @ [58] @
          format_int 2 (round_py p div 60000 mod 60) @ [58] @
          format_int 2 (round_py p div 1000 mod 60) @ [44] @
          format_int 3 (round_py p mod 1000))"
proof -
  have "round_py p div 1000 div 60 = round_py p div 60000"
    by (simp add: zdiv_zmult2_eq [symmetric])
  moreover have "round_py p div 1000 div 60 div 60 = round_py p div 3600000"
    by (simp add: zdiv_zmult2_eq [symmetric])
  ultimately show ?thesis
    using assms by (simp add: convert_time_to_srt_format_def divmod_def ustr_def Let_def)
qed

lemma mod_div_int:
  fixes a b c :: int
  assumes "0 < b" "0 \<le> c"
  shows "(a mod (b * c)) div b = (a div b) mod c"
proof -
  have "a mod (b * c) = b * (a div b mod c) + a mod b"
    using assms by (simp add: zmod_zmult2_eq)
  then show ?thesis
    using assms by simp
qed

lemma format_int2: "0 \<le> n \<Longrightarrow> n < 100 \<Longrightarrow> format_int 2 n = [48 + nat (n div 10), 48 + nat (n mod 10)]"
  by (simp add: format_int_def zfill2 nat_div_distrib nat_mod_distrib)

lemma format_int3:
  "0 \<le> n \<Longrightarrow> n < 1000 \<Longrightarrow>
   format_int 3 n = [48 + nat (n div 100), 48 + nat (n div 10 mod 10), 48 + nat (n mod 10)]"
  by (simp add: format_int_def zfill3 nat_div_distrib nat_mod_distrib)

subsection \<open>C2: milliseconds are rounded to nearest, ties to even\<close>

text \<open>
  C2, as the code has it. For a time \<open>time \<ge> 0\<close> whose product with 1000 is the finite
  binary64 number \<open>p\<close>, the millisecond total \<open>T\<close> is the integer nearest to \<open>p\<close>, a tie
  going to the even integer (not away from zero); the result is the hours \<open>T div 3600000\<close>,
  the minutes, the seconds and the milliseconds of \<open>T\<close>, by floor division, as
  \<open>HH:MM:SS,mmm\<close> (each digit is given for less than 100 hours). The times 0.0, 5.25 and
  3599.9995 give \<open>00:00:00,000\<close>, \<open>00:00:05,250\<close> and \<open>01:00:00,000\<close>.
\<close>

theorem convert_time_to_srt_format_rounding:
  "(0 \<le> time \<and> float_mul time 1000 = Some p \<longrightarrow>
     (\<exists>T. \<bar>of_int T - p\<bar> \<le> 1 / 2 \<and> (\<bar>of_int T - p\<bar> = 1 / 2 \<longrightarrow> even T) \<and> 0 \<le> T \<and>
        convert_time_to_srt_format time =
          Inr (format_int 2 (T div 3600000) @ [58] @ format_int 2 (T div 60000 mod 60) @ [58] @
               format_int 2 (T div 1000 mod 60) @ [44] @ format_int 3 (T mod 1000)) \<and>
        (T < 360000000 \<longrightarrow>
           convert_time_to_srt_format time =
             Inr [48 + nat (T div 36000000), 48 + nat (T div 3600000 mod 10), 58,
                  48 + nat (T div 600000 mod 6), 48 + nat (T div 60000 mod 10), 58,
                  48 + nat (T div 10000 mod 6), 48 + nat (T div 1000 mod 10), 44,
                  48 + nat (T div 100 mod 10), 48 + nat (T div 10 mod 10), 48 + nat (T mod 10)]))) \<and>
   convert_time_to_srt_format 0 = Inr (ustr ''00:00:00,000'') \<and>
   convert_time_to_srt_format (21 / 4) = Inr (ustr ''00:00:05,250'') \<and>
   binary64 (35999995 / 10000) = Some time_3599_9995 \<and>
   convert_time_to_srt_format time_3599_9995 = Inr (ustr ''01:00:00,000'')"
proof (intro conjI impI)
  assume a: "0 \<le> time \<and> float_mul time 1000 = Some p"
  define T where "T = round_py p"
  have p: "0 \<le> p"
    using a binary64_nonneg [of "time * 1000" p] by (simp add: float_mul_def)
  have T0: "0 \<le> T"
    unfolding T_def using p by (rule round_py_nonneg)
  have near: "\<bar>of_int T - p\<bar> \<le> 1 / 2 \<and> (\<bar>of_int T - p\<bar> = 1 / 2 \<longrightarrow> even T)"
    unfolding T_def by (rule round_py_nearest)
  have gen: "convert_time_to_srt_format time =
          Inr (format_int 2 (T div 3600000) @ [58] @ format_int 2 (T div 60000 mod 60) @ [58] @
               format_int 2 (T div 1000 mod 60) @ [44] @ format_int 3 (T mod 1000))"
    unfolding T_def using a by (simp add: convert_time_fields)
  have dig: "convert_time_to_srt_format time =
             Inr [48 + nat (T div 36000000), 48 + nat (T div 3600000 mod 10), 58,
                  48 + nat (T div 600000 mod 6), 48 + nat (T div 60000 mod 10), 58,
                  48 + nat (T div 10000 mod 6), 48 + nat (T div 1000 mod 10), 44,
                  48 + nat (T div 100 mod 10), 48 + nat (T div 10 mod 10), 48 + nat (T mod 10)]"
    if lt: "T < 360000000"
  proof -
    have h: "0 \<le> T div 3600000" "T div 3600000 < 100"
      using T0 lt by linarith+
    have m: "0 \<le> T div 60000 mod 60" "T div 60000 mod 60 < 100"
      by linarith+
    have s: "0 \<le> T div 1000 mod 60" "T div 1000 mod 60 < 100"
      by linarith+
    have ms: "0 \<le> T mod 1000" "T mod 1000 < 1000"
      by simp_all
    have e1: "T div 3600000 div 10 = T div 36000000"
      by (simp add: zdiv_zmult2_eq [symmetric])
    have e2: "T div 60000 mod 60 div 10 = T div 600000 mod 6"
      using mod_div_int [of 10 6 "T div 60000"] by (simp add: zdiv_zmult2_eq [symmetric])
    have e3: "T div 60000 mod 60 mod 10 = T div 60000 mod 10"
      by (simp add: mod_mod_cancel)
    have e4: "T div 1000 mod 60 div 10 = T div 10000 mod 6"
      using mod_div_int [of 10 6 "T div 1000"] by (simp add: zdiv_zmult2_eq [symmetric])
    have e5: "T div 1000 mod 60 mod 10 = T div 1000 mod 10"
      by (simp add: mod_mod_cancel)
    have e6: "T mod 1000 div 100 = T div 100 mod 10"
      using mod_div_int [of 100 10 T] by simp
    have e7: "T mod 1000 div 10 mod 10 = T div 10 mod 10"
      using mod_div_int [of 10 100 T] by (simp add: mod_mod_cancel)
    have e8: "T mod 1000 mod 10 = T mod 10"
      by (simp add: mod_mod_cancel)
    show ?thesis
      unfolding gen format_int2 [OF h] format_int2 [OF m] format_int2 [OF s] format_int3 [OF ms]
        e1 e2 e3 e4 e5 e6 e7 e8
      by simp
  qed
  from near T0 gen dig
  show "\<exists>T. \<bar>of_int T - p\<bar> \<le> 1 / 2 \<and> (\<bar>of_int T - p\<bar> = 1 / 2 \<longrightarrow> even T) \<and> 0 \<le> T \<and>
        convert_time_to_srt_format time =
          Inr (format_int 2 (T div 3600000) @ [58] @ format_int 2 (T div 60000 mod 60) @ [58] @
               format_int 2 (T div 1000 mod 60) @ [44] @ format_int 3 (T mod 1000)) \<and>
        (T < 360000000 \<longrightarrow>
           convert_time_to_srt_format time =
             Inr [48 + nat (T div 36000000), 48 + nat (T div 3600000 mod 10), 58,
                  48 + nat (T div 600000 mod 6), 48 + nat (T div 60000 mod 10), 58,
                  48 + nat (T div 10000 mod 6), 48 + nat (T div 1000 mod 10), 44,
                  48 + nat (T div 100 mod 10), 48 + nat (T div 10 mod 10), 48 + nat (T mod 10)])"
    by (intro exI [of _ T]) blast
next
  show "convert_time_to_srt_format 0 = Inr (ustr ''00:00:00,000'')"
    by code_simp
  show "convert_time_to_srt_format (21 / 4) = Inr (ustr ''00:00:05,250'')"
    by code_simp
  show "binary64 (35999995 / 10000) = Some time_3599_9995"
    by code_simp
  show "convert_time_to_srt_format time_3599_9995 = Inr (ustr ''01:00:00,000'')"
    by code_simp
qed

lemma float_mul_sixteenth: "float_mul (1 / 16) 1000 = Some (125 / 2)"
  by code_simp

theorem convert_time_to_srt_format_rounding_witness:
  "(0::rat) \<le> 1 / 16 \<and> float_mul (1 / 16) 1000 = Some (125 / 2) \<and>
   convert_time_to_srt_format (1 / 16) = Inr (ustr ''00:00:00,062'')"
proof -
  have pre: "(0::rat) \<le> 1 / 16 \<and> float_mul (1 / 16) 1000 = Some (125 / 2)"
    by (simp add: float_mul_sixteenth)
  with convert_time_to_srt_format_rounding [of "1 / 16" "125 / 2"]
  obtain T :: int where near: "\<bar>of_int T - (125 / 2 :: rat)\<bar> \<le> 1 / 2"
    and tie: "\<bar>of_int T - (125 / 2 :: rat)\<bar> = 1 / 2 \<longrightarrow> even T"
    and res: "T < 360000000 \<longrightarrow>
           convert_time_to_srt_format (1 / 16) =
             Inr [48 + nat (T div 36000000), 48 + nat (T div 3600000 mod 10), 58,
                  48 + nat (T div 600000 mod 6), 48 + nat (T div 60000 mod 10), 58,
                  48 + nat (T div 10000 mod 6), 48 + nat (T div 1000 mod 10), 44,
                  48 + nat (T div 100 mod 10), 48 + nat (T div 10 mod 10), 48 + nat (T mod 10)]"
    by blast
  from near have "(62::rat) \<le> of_int T" and "of_int T \<le> (63::rat)"
    by linarith+
  then have "62 \<le> T" and "T \<le> 63"
    by linarith+
  then have "T = 62 \<or> T = 63"
    by linarith
  moreover have "T \<noteq> 63"
  proof
    assume "T = 63"
    with tie show False by simp
  qed
  ultimately have "T = 62"
    by simp
  with res have "convert_time_to_srt_format (1 / 16) = Inr [48, 48, 58, 48, 48, 58, 48, 48, 44, 48, 54, 50]"
    by simp
  with pre show ?thesis
    by (simp add: ustr_def)
qed

text \<open>
  At 0.0625 s the product is exactly 62.5: the code writes 062 milliseconds, rounding half
  away from zero would write 063.
\<close>

theorem convert_time_to_srt_format_half_even_counterexample:
  "convert_time_to_srt_format (1 / 16) = Inr (ustr ''00:00:00,062'') \<and>
   spec_convert_time_to_srt_format (1 / 16) = Inr (ustr ''00:00:00,063'') \<and>
   convert_time_to_srt_format (1 / 16) \<noteq> spec_convert_time_to_srt_format (1 / 16)"
proof -
  have a: "convert_time_to_srt_format (1 / 16) = Inr (ustr ''00:00:00,062'')"
    by code_simp
  have b: "spec_convert_time_to_srt_format (1 / 16) = Inr (ustr ''00:00:00,063'')"
    by code_simp
  show ?thesis
    unfolding a b by (simp add: ustr_def)
qed

end
